theory Spec2Isabelle
  imports Complex_Main
begin


section \<open>Numbers, points and the drawing surface\<close>

text \<open>
  The program computes with JavaScript numbers. Coordinates, sizes and angles are modelled
  as mathematical reals, and \<open>Math.cos\<close>, \<open>Math.sin\<close> and \<open>Math.atan2\<close> as the exact real
  functions; node identifiers are integers. Rounding of IEEE doubles is outside the model.
\<close>

text \<open>\<open>Math.atan2(y, x)\<close>: the direction of the vector \<open>(x, y)\<close>, in \<open>(-\<pi>, \<pi>]\<close>, and 0 at
  the origin.\<close>

definition atan2 :: "real \<Rightarrow> real \<Rightarrow> real" where
  "atan2 b a =
     (if 0 < a then arctan (b / a)
      else if a < 0 then (if 0 \<le> b then arctan (b / a) + pi else arctan (b / a) - pi)
      else if 0 < b then pi / 2
      else if b < 0 then - (pi / 2)
      else 0)"

text \<open>A point \<open>{x, y}\<close>.\<close>

record Point =
  px :: real
  py :: real

text \<open>
  The 2D canvas context is modelled by the sequence of calls made on it, oldest first.
  An assignment to a property of the context is a call of its own (\<open>SetFillStyle\<close> for
  \<open>ctx.fillStyle = c\<close>). \<open>SetFont w s\<close> stands for the font string built from the weight
  \<open>w\<close> and the pixel size \<open>s\<close>.
\<close>

datatype canvas_op =
    BeginPath
  | ClosePath
  | MoveTo real real
  | LineTo real real
  | ArcTo real real real real real
  | SetFillStyle string
  | SetStrokeStyle string
  | SetLineWidth real
  | SetFont string real
  | SetTextAlign string
  | SetTextBaseline string
  | FillText string real real
  | Fill
  | Stroke
  | ClearRect real real real real

type_synonym ctx = "canvas_op list"

section \<open>The basic graph composable\<close>

text \<open>The types \<open>Node\<close>, \<open>Edge\<close> and \<open>GraphOptions\<close> of the composable.\<close>

record Node =
  node_id :: int
  node_x :: real
  node_y :: real

record Edge =
  edge_to :: int
  edge_from :: int

record GraphOptions =
  nodeSize :: real
  nodeBorderSize :: real
  nodeColor :: string
  nodeBorderColor :: string
  nodeText :: "Node \<Rightarrow> string"
  nodeTextSize :: real
  nodeTextColor :: string
  edgeColor :: string
  edgeWidth :: real

text \<open>\<open>Partial<Node>\<close>: every field may be absent.\<close>

record PartialNode =
  part_id :: "int option"
  part_x :: "real option"
  part_y :: "real option"

text \<open>The two reactive collections \<open>nodes\<close> and \<open>edges\<close>.\<close>

record graph =
  nodes :: "Node list"
  edges :: "Edge list"

definition empty_graph :: graph where
  "empty_graph = \<lparr>nodes = [], edges = []\<rparr>"

text \<open>\<open>v || d\<close> on an optional number: an absent value and the number 0 are both falsy.\<close>

definition or_else :: "'a::zero option \<Rightarrow> 'a \<Rightarrow> 'a" where
  "or_else v d = (case v of None \<Rightarrow> d | Some a \<Rightarrow> if a = 0 then d else a)"

text \<open>\<open>Array.prototype.findIndex\<close>: the index of the first element that satisfies the
  predicate, and \<open>-1\<close> when there is none.\<close>

fun findIndex :: "('a \<Rightarrow> bool) \<Rightarrow> 'a list \<Rightarrow> int" where
  "findIndex P [] = - 1"
| "findIndex P (a # as) =
     (if P a then 0 else (let r = findIndex P as in if r = - 1 then - 1 else r + 1))"

text \<open>\<open>xs.splice(i, 1)\<close> for an index \<open>0 \<le> i\<close>: the element at \<open>i\<close> is taken out.\<close>

definition splice1 :: "int \<Rightarrow> 'a list \<Rightarrow> 'a list" where
  "splice1 i xs = take (nat i) xs @ drop (nat i + 1) xs"

definition drawNode :: "GraphOptions \<Rightarrow> ctx \<Rightarrow> Node \<Rightarrow> ctx" where
  "drawNode opts c n =
     c @ [BeginPath,
          ArcTo (node_x n) (node_y n) (nodeSize opts) 0 (pi * 2),
          SetFillStyle (nodeColor opts),
          Fill,
          SetStrokeStyle (nodeBorderColor opts),
          SetLineWidth (nodeBorderSize opts),
          Stroke,
          ClosePath,
          SetFont ''bold'' (nodeTextSize opts),
          SetFillStyle (nodeTextColor opts),
          SetTextAlign ''center'',
          SetTextBaseline ''middle'',
          FillText (nodeText opts n) (node_x n) (node_y n)]"

definition drawEdge :: "GraphOptions \<Rightarrow> Node list \<Rightarrow> ctx \<Rightarrow> Edge \<Rightarrow> ctx" where
  "drawEdge opts ns c e =
     (case (find (\<lambda>n. node_id n = edge_from e) ns, find (\<lambda>n. node_id n = edge_to e) ns) of
        (Some f, Some t) \<Rightarrow>
          c @ [BeginPath,
               MoveTo (node_x f) (node_y f),
               LineTo (node_x t) (node_y t),
               SetStrokeStyle (edgeColor opts),
               SetLineWidth (edgeWidth opts),
               Stroke,
               ClosePath]
      | _ \<Rightarrow> c)"

text \<open>\<open>draw\<close>; \<open>cw\<close> and \<open>ch\<close> are the canvas's width and height.\<close>

definition draw :: "GraphOptions \<Rightarrow> real \<Rightarrow> real \<Rightarrow> graph \<Rightarrow> ctx \<Rightarrow> ctx" where
  "draw opts cw ch g c =
     foldl (drawNode opts)
       (foldl (drawEdge opts (nodes g)) (c @ [ClearRect 0 0 cw ch]) (edges g))
       (nodes g)"

definition addNode :: "PartialNode \<Rightarrow> graph \<Rightarrow> graph" where
  "addNode p g =
     g\<lparr>nodes := nodes g @
        [\<lparr>node_id = or_else (part_id p) (int (length (nodes g)) + 1),
          node_x = or_else (part_x p) 100,
          node_y = or_else (part_y p) 100\<rparr>]\<rparr>"

definition removeNode :: "int \<Rightarrow> graph \<Rightarrow> graph" where
  "removeNode i g =
     (let index = findIndex (\<lambda>n. node_id n = i) (nodes g);
          ns = (if index \<noteq> - 1 then splice1 index (nodes g) else nodes g)
      in \<lparr>nodes = ns,
          edges = filter (\<lambda>e. edge_from e \<noteq> i \<and> edge_to e \<noteq> i) (edges g)\<rparr>)"

text \<open>The operations of claim C4: a sequence of \<open>addNode\<close> and \<open>removeNode\<close> calls.\<close>

datatype graph_op = AddNode PartialNode | RemoveNode int

fun apply_op :: "graph \<Rightarrow> graph_op \<Rightarrow> graph" where
  "apply_op g (AddNode p) = addNode p g"
| "apply_op g (RemoveNode i) = removeNode i g"

definition run_ops :: "graph_op list \<Rightarrow> graph" where
  "run_ops ops = foldl apply_op empty_graph ops"

section \<open>Shape drawing primitives\<close>

text \<open>The shape descriptions \<open>Line\<close> and \<open>Triangle\<close>; a colour may be left out.\<close>

record Line =
  line_start :: Point
  line_end :: Point
  line_color :: "string option"
  line_width :: real

record Triangle =
  point1 :: Point
  point2 :: Point
  point3 :: Point
  tri_color :: "string option"

text \<open>The destructuring default \<open>color = 'black'\<close>.\<close>

definition color_or_black :: "string option \<Rightarrow> string" where
  "color_or_black col = (case col of None \<Rightarrow> ''black'' | Some s \<Rightarrow> s)"

definition drawLine :: "ctx \<Rightarrow> Line \<Rightarrow> ctx" where
  "drawLine c l =
     c @ [BeginPath,
          MoveTo (px (line_start l)) (py (line_start l)),
          LineTo (px (line_end l)) (py (line_end l)),
          SetStrokeStyle (color_or_black (line_color l)),
          SetLineWidth (line_width l),
          Stroke,
          ClosePath]"

definition drawTriangle :: "ctx \<Rightarrow> Triangle \<Rightarrow> ctx" where
  "drawTriangle c t =
     c @ [BeginPath,
          MoveTo (px (point1 t)) (py (point1 t)),
          LineTo (px (point2 t)) (py (point2 t)),
          LineTo (px (point3 t)) (py (point3 t)),
          SetFillStyle (color_or_black (tri_color t)),
          Fill,
          ClosePath]"

definition drawArrow :: "ctx \<Rightarrow> Line \<Rightarrow> ctx" where
  "drawArrow c l =
     (let lineStart = line_start l;
          lineEnd = line_end l;
          col = color_or_black (line_color l);
          arrowHeadHeight = 25;
          ang = atan2 (py lineEnd - py lineStart) (px lineEnd - px lineStart);
          epiCenter = \<lparr>px = px lineEnd - arrowHeadHeight * cos ang,
                       py = py lineEnd - arrowHeadHeight * sin ang\<rparr>;
          pLineLength = arrowHeadHeight / 1.75;
          trianglePt1 = lineEnd;
          trianglePt2 = \<lparr>px = px epiCenter + pLineLength * cos (ang + pi / 2),
                         py = py epiCenter + pLineLength * sin (ang + pi / 2)\<rparr>;
          trianglePt3 = \<lparr>px = px epiCenter - pLineLength * cos (ang + pi / 2),
                         py = py epiCenter - pLineLength * sin (ang + pi / 2)\<rparr>;
          c1 = drawLine c \<lparr>line_start = lineStart, line_end = epiCenter,
                             line_color = Some col, line_width = line_width l\<rparr>
      in drawTriangle c1 \<lparr>point1 = trianglePt1, point2 = trianglePt2, point3 = trianglePt3,
                            tri_color = Some col\<rparr>)"

section \<open>The edge schematic builder\<close>

text \<open>
  Modelled from the spec: the types \<open>GNode\<close> and \<open>GEdge\<close> (Node and Edge of the data model:
  an edge names its two nodes by label), the option fields that \<open>getEdgeSchematic\<close> reads,
  each a constant or a function of the node or edge, and \<open>getValue\<close>, which resolves one.
\<close>

record GNode =
  gid :: int
  gx :: real
  gy :: real
  label :: string

record GEdge =
  gfrom :: string
  gto :: string

datatype ('a, 'v) MaybeGetter = Literal 'v | Computed "'a \<Rightarrow> 'v"

fun getValue :: "('a, 'v) MaybeGetter \<Rightarrow> 'a \<Rightarrow> 'v" where
  "getValue (Literal v) a = v"
| "getValue (Computed f) a = f a"

record SchematicOptions =
  opt_nodeSize :: "(GNode, real) MaybeGetter"
  opt_edgeWidth :: "(GEdge, real) MaybeGetter"
  opt_edgeColor :: "(GEdge, string) MaybeGetter"

datatype error = UnresolvedNode

text \<open>\<open>Array.prototype.find\<close> on an array of objects: the first element that satisfies
  the predicate, with its position, which stands for the identity of the object.\<close>

fun find_at :: "nat \<Rightarrow> ('a \<Rightarrow> bool) \<Rightarrow> 'a list \<Rightarrow> (nat \<times> 'a) option" where
  "find_at k P [] = None"
| "find_at k P (a # as) = (if P a then Some (k, a) else find_at (Suc k) P as)"

text \<open>
  Modelled from the spec: \<open>getFromToNodes\<close> of useGraphHelpers resolves the labels
  \<open>edge.from\<close> and \<open>edge.to\<close> to node records; a label that names no node is an error.
\<close>

definition getFromToNodes ::
  "GEdge \<Rightarrow> GNode list \<Rightarrow> error + ((nat \<times> GNode) \<times> (nat \<times> GNode))" where
  "getFromToNodes e ns =
     (case (find_at 0 (\<lambda>n. label n = gfrom e) ns, find_at 0 (\<lambda>n. label n = gto e) ns) of
        (Some f, Some t) \<Rightarrow> Inr (f, t)
      | _ \<Rightarrow> Inl UnresolvedNode)"

text \<open>
  Modelled from the spec: \<open>getLargestAngularSpace\<close> of shapes/helpers. The angles from the
  origin to the occupied points are sorted ascending; each angle is paired with the gap up
  to the next one, the last with the gap that wraps around \<open>2\<pi>\<close> to the first; the result is
  the midpoint of the first largest gap, and 0 when no point is given.
\<close>

definition angular_gaps :: "real list \<Rightarrow> (real \<times> real) list" where
  "angular_gaps as = zip as (map2 (\<lambda>nxt a. nxt - a) (tl as @ [hd as + 2 * pi]) as)"

fun largest_gap :: "real \<times> real \<Rightarrow> (real \<times> real) list \<Rightarrow> real \<times> real" where
  "largest_gap b [] = b"
| "largest_gap b (g # gs) = largest_gap (if snd b < snd g then g else b) gs"

definition getLargestAngularSpace :: "Point \<Rightarrow> Point list \<Rightarrow> real" where
  "getLargestAngularSpace origin pts =
     (case angular_gaps (sort (map (\<lambda>p. atan2 (py p - py origin) (px p - px origin)) pts)) of
        [] \<Rightarrow> 0
      | g # gs \<Rightarrow> (case largest_gap g gs of (a, d) \<Rightarrow> a + d / 2))"

text \<open>The two forms of a schematic: \<open>Arrow\<close> and \<open>UTurnArrow\<close>.\<close>

record Arrow =
  arrow_start :: Point
  arrow_end :: Point
  arrow_color :: string
  arrow_width :: real

record UTurnArrow =
  ut_spacing :: real
  ut_center :: Point
  ut_upDistance :: real
  ut_downDistance :: real
  ut_angle :: real
  ut_lineWidth :: real
  ut_color :: string

datatype schematic = Straight Arrow | SelfLoop UTurnArrow

text \<open>\<open>edges.some(e => e.from === to.label && e.to === from.label)\<close>.\<close>

definition isBidirectional :: "GEdge list \<Rightarrow> GNode \<Rightarrow> GNode \<Rightarrow> bool" where
  "isBidirectional es fromN toN = list_ex (\<lambda>e. gfrom e = label toN \<and> gto e = label fromN) es"

text \<open>The callback of \<open>map\<close>: the position of the other end of an edge at the node.\<close>

definition otherEnd :: "GNode \<Rightarrow> GNode list \<Rightarrow> GEdge \<Rightarrow> error + Point" where
  "otherEnd fromN ns e =
     (case getFromToNodes e ns of
        Inl err \<Rightarrow> Inl err
      | Inr ((fi, fromNode), (ti, toNode)) \<Rightarrow>
          Inr (if gid fromN = gid fromNode then \<lparr>px = gx toNode, py = gy toNode\<rparr>
               else \<lparr>px = gx fromNode, py = gy fromNode\<rparr>))"

text \<open>A \<open>map\<close> whose callback may throw: the first error ends it.\<close>

fun all_or_error :: "(error + 'a) list \<Rightarrow> error + 'a list" where
  "all_or_error [] = Inr []"
| "all_or_error (r # rs) =
     (case r of
        Inl err \<Rightarrow> Inl err
      | Inr a \<Rightarrow> (case all_or_error rs of Inl err \<Rightarrow> Inl err | Inr as \<Rightarrow> Inr (a # as)))"

definition occupied :: "GNode \<Rightarrow> GNode \<Rightarrow> GNode list \<Rightarrow> GEdge list \<Rightarrow> error + Point list" where
  "occupied fromN toN ns es =
     all_or_error (map (otherEnd fromN ns)
       (filter (\<lambda>e. (gfrom e = label fromN \<or> gto e = label toN) \<and> gfrom e \<noteq> gto e) es))"

definition getEdgeSchematic ::
  "GEdge \<Rightarrow> GNode list \<Rightarrow> GEdge list \<Rightarrow> SchematicOptions \<Rightarrow> error + schematic" where
  "getEdgeSchematic edge ns es options =
     (case getFromToNodes edge ns of
        Inl err \<Rightarrow> Inl err
      | Inr ((fi, fromN), (ti, toN)) \<Rightarrow>
          (let isBi = isBidirectional es fromN toN;
               isSelfDirecting = (ti = fi);
               nodeSizeVal = getValue (opt_nodeSize options) toN + 10;
               ang = atan2 (gy toN - gy fromN) (gx toN - gx fromN);
               epiCenter = \<lparr>px = gx toN - nodeSizeVal * cos ang,
                            py = gy toN - nodeSizeVal * sin ang\<rparr>;
               lineSpacing = 12;
               startP = (if isBi
                         then \<lparr>px = gx fromN + cos (ang + pi / 2) * lineSpacing,
                               py = gy fromN + sin (ang + pi / 2) * lineSpacing\<rparr>
                         else \<lparr>px = gx fromN, py = gy fromN\<rparr>);
               endP = (if isBi
                       then \<lparr>px = px epiCenter + cos (ang + pi / 2) * lineSpacing,
                             py = py epiCenter + sin (ang + pi / 2) * lineSpacing\<rparr>
                       else epiCenter)
           in case occupied fromN toN ns es of
                Inl err \<Rightarrow> Inl err
              | Inr pts \<Rightarrow>
                  Inr (if isSelfDirecting
                       then SelfLoop \<lparr>ut_spacing = lineSpacing,
                                      ut_center = \<lparr>px = gx fromN, py = gy fromN\<rparr>,
                                      ut_upDistance = 80,
                                      ut_downDistance = 25,
                                      ut_angle = getLargestAngularSpace startP pts,
                                      ut_lineWidth = getValue (opt_edgeWidth options) edge,
                                      ut_color = getValue (opt_edgeColor options) edge\<rparr>
                       else Straight \<lparr>arrow_start = startP,
                                      arrow_end = endP,
                                      arrow_color = getValue (opt_edgeColor options) edge,
                                      arrow_width = getValue (opt_edgeWidth options) edge\<rparr>)))"

section \<open>Notions used to state the properties\<close>

text \<open>The identifiers of the nodes of a graph, in order.\<close>

definition node_ids :: "graph \<Rightarrow> int list" where
  "node_ids g = map node_id (nodes g)"

text \<open>Both ends of an edge of the basic graph name a node of the collection.\<close>

definition resolves :: "Node list \<Rightarrow> Edge \<Rightarrow> bool" where
  "resolves ns e \<longleftrightarrow> edge_from e \<in> set (map node_id ns) \<and> edge_to e \<in> set (map node_id ns)"

text \<open>Both labels of an edge name a node of the collection.\<close>

definition resolvable :: "GNode list \<Rightarrow> GEdge \<Rightarrow> bool" where
  "resolvable ns e \<longleftrightarrow> gfrom e \<in> set (map label ns) \<and> gto e \<in> set (map label ns)"

text \<open>The mirror of an edge, and the spec's reading of bidirectionality: the collection
  holds an edge other than \<open>e\<close> whose pair is the reverse of the pair of \<open>e\<close>.\<close>

definition reverse_edge :: "GEdge \<Rightarrow> GEdge" where
  "reverse_edge e = \<lparr>gfrom = gto e, gto = gfrom e\<rparr>"


subsection \<open>Plane geometry\<close>

text \<open>The distance of two points, the unit vector from \<open>a\<close> toward \<open>b\<close>, a vector turned
  by a quarter turn, the point reached from \<open>p\<close> by \<open>k\<close> times the vector \<open>v\<close>, and the
  scalar product of the vectors from \<open>a\<close> to \<open>b\<close> and from \<open>c\<close> to \<open>d\<close>.\<close>

definition pdist :: "Point \<Rightarrow> Point \<Rightarrow> real" where
  "pdist a b = sqrt ((px b - px a)\<^sup>2 + (py b - py a)\<^sup>2)"

definition unit_dir :: "Point \<Rightarrow> Point \<Rightarrow> Point" where
  "unit_dir a b = \<lparr>px = (px b - px a) / pdist a b, py = (py b - py a) / pdist a b\<rparr>"

definition perp :: "Point \<Rightarrow> Point" where
  "perp v = \<lparr>px = - py v, py = px v\<rparr>"

definition move :: "Point \<Rightarrow> real \<Rightarrow> Point \<Rightarrow> Point" where
  "move p k v = \<lparr>px = px p + k * px v, py = py p + k * py v\<rparr>"

definition dot :: "Point \<Rightarrow> Point \<Rightarrow> Point \<Rightarrow> Point \<Rightarrow> real" where
  "dot a b c d = (px b - px a) * (px d - px c) + (py b - py a) * (py d - py c)"

text \<open>Three points on one line.\<close>

definition collinear :: "Point \<Rightarrow> Point \<Rightarrow> Point \<Rightarrow> bool" where
  "collinear a b c \<longleftrightarrow> (px b - px a) * (py c - py a) - (py b - py a) * (px c - px a) = 0"

text \<open>The spec's words for the straight arrow: the epicenter is the end pulled back by 25
  along the line's direction; the two base points of the head lie \<open>25 / 1.75\<close> from the
  epicenter, across the direction, one on each side (\<open>s\<close> is 1 or -1).\<close>

definition arrow_epicenter :: "Line \<Rightarrow> Point" where
  "arrow_epicenter l = move (line_end l) (- 25) (unit_dir (line_start l) (line_end l))"

definition arrow_base :: "Line \<Rightarrow> real \<Rightarrow> Point" where
  "arrow_base l s =
     move (arrow_epicenter l) (s * (25 / 1.75)) (perp (unit_dir (line_start l) (line_end l)))"

text \<open>The position of a node, and the point at parameter \<open>t\<close> on the line through the start
  and the end of an arrow (the segment itself for \<open>0 \<le> t \<le> 1\<close>).\<close>

definition node_pos :: "GNode \<Rightarrow> Point" where
  "node_pos n = \<lparr>px = gx n, py = gy n\<rparr>"

definition lane_point :: "Arrow \<Rightarrow> real \<Rightarrow> Point" where
  "lane_point a t =
     \<lparr>px = px (arrow_start a) + t * (px (arrow_end a) - px (arrow_start a)),
      py = py (arrow_start a) + t * (py (arrow_end a) - py (arrow_start a))\<rparr>"

subsection \<open>Example scenes\<close>

definition sample_graph :: graph where
  "sample_graph =
     \<lparr>nodes = [\<lparr>node_id = 1, node_x = 0, node_y = 0\<rparr>,
               \<lparr>node_id = 2, node_x = 50, node_y = 0\<rparr>,
               \<lparr>node_id = 3, node_x = 0, node_y = 50\<rparr>],
      edges = [\<lparr>edge_to = 2, edge_from = 1\<rparr>,
               \<lparr>edge_to = 3, edge_from = 2\<rparr>,
               \<lparr>edge_to = 1, edge_from = 3\<rparr>]\<rparr>"

text \<open>Options of the basic graph: the defaults of \<open>useGraph\<close>, with a constant label text.\<close>

definition sample_options :: GraphOptions where
  "sample_options =
     \<lparr>nodeSize = 35, nodeBorderSize = 8, nodeColor = ''white'', nodeBorderColor = ''black'',
      nodeText = (\<lambda>n. ''node''), nodeTextSize = 24, nodeTextColor = ''black'',
      edgeColor = ''black'', edgeWidth = 10\<rparr>"

definition node_A :: GNode where "node_A = \<lparr>gid = 1, gx = 0, gy = 0, label = ''A''\<rparr>"
definition node_B :: GNode where "node_B = \<lparr>gid = 2, gx = 100, gy = 0, label = ''B''\<rparr>"
definition edge_AB :: GEdge where "edge_AB = \<lparr>gfrom = ''A'', gto = ''B''\<rparr>"
definition edge_BA :: GEdge where "edge_BA = \<lparr>gfrom = ''B'', gto = ''A''\<rparr>"
definition edge_AA :: GEdge where "edge_AA = \<lparr>gfrom = ''A'', gto = ''A''\<rparr>"
definition node_C :: GNode where "node_C = \<lparr>gid = 3, gx = 10, gy = 6, label = ''C''\<rparr>"
definition edge_AC :: GEdge where "edge_AC = \<lparr>gfrom = ''A'', gto = ''C''\<rparr>"

text \<open>A second node at the position of A.\<close>

definition node_D :: GNode where "node_D = \<lparr>gid = 4, gx = 0, gy = 0, label = ''D''\<rparr>"
definition edge_AD :: GEdge where "edge_AD = \<lparr>gfrom = ''A'', gto = ''D''\<rparr>"
definition edge_DA :: GEdge where "edge_DA = \<lparr>gfrom = ''D'', gto = ''A''\<rparr>"

definition sample_line :: Line where
  "sample_line = \<lparr>line_start = \<lparr>px = 0, py = 0\<rparr>, line_end = \<lparr>px = 100, py = 0\<rparr>,
                   line_color = None, line_width = 10\<rparr>"

text \<open>The defaults of the composable: node size 35, black edges of width 10.\<close>

definition default_options :: SchematicOptions where
  "default_options =
     \<lparr>opt_nodeSize = Literal 35, opt_edgeWidth = Literal 10, opt_edgeColor = Literal ''black''\<rparr>"

section \<open>Properties of the basic graph composable\<close>

lemma findIndex_ge: "- 1 \<le> findIndex P xs"
  by (induction xs) (auto simp: Let_def)

lemma findIndex_none: "findIndex P xs = - 1 \<longleftrightarrow> (\<forall>a\<in>set xs. \<not> P a)"
proof (induction xs)
  case Nil
  show ?case by simp
next
  case (Cons a xs)
  have "- 1 \<le> findIndex P xs" by (rule findIndex_ge)
  with Cons show ?case by (auto simp: Let_def)
qed

lemma findIndex_first:
  "findIndex P xs \<noteq> - 1 \<Longrightarrow>
     \<exists>ys a zs. xs = ys @ a # zs \<and> P a \<and> (\<forall>b\<in>set ys. \<not> P b) \<and> findIndex P xs = int (length ys)"
proof (induction xs)
  case Nil
  then show ?case by simp
next
  case (Cons a xs)
  show ?case
  proof (cases "P a")
    case True
    then have "a # xs = [] @ a # xs \<and> P a \<and> (\<forall>b\<in>set []. \<not> P b) \<and> findIndex P (a # xs) = int (length ([]::'a list))"
      by simp
    then show ?thesis by blast
  next
    case False
    with Cons.prems have ne: "findIndex P xs \<noteq> - 1"
      by (auto simp: Let_def split: if_splits)
    from Cons.IH [OF ne] obtain ys b zs where
      h: "xs = ys @ b # zs" "P b" "\<forall>c\<in>set ys. \<not> P c" "findIndex P xs = int (length ys)"
      by blast
    have "a # xs = (a # ys) @ b # zs \<and> P b \<and> (\<forall>c\<in>set (a # ys). \<not> P c)
          \<and> findIndex P (a # xs) = int (length (a # ys))"
      using h False ne by (simp add: Let_def)
    then show ?thesis by blast
  qed
qed

lemma splice1_at: "splice1 (int (length ys)) (ys @ a # zs) = ys @ zs"
  by (simp add: splice1_def)

lemma removeNode_edges:
  "edges (removeNode i g) = filter (\<lambda>e. edge_from e \<noteq> i \<and> edge_to e \<noteq> i) (edges g)"
  by (simp add: removeNode_def Let_def)

lemma removeNode_nodes_absent:
  "\<forall>n\<in>set (nodes g). node_id n \<noteq> i \<Longrightarrow> nodes (removeNode i g) = nodes g"
  using findIndex_none [of "\<lambda>n. node_id n = i" "nodes g"]
  by (simp add: removeNode_def Let_def)

lemma removeNode_nodes_present:
  assumes "\<exists>n\<in>set (nodes g). node_id n = i"
  shows "\<exists>ys n zs. nodes g = ys @ n # zs \<and> node_id n = i \<and> (\<forall>m\<in>set ys. node_id m \<noteq> i)
           \<and> nodes (removeNode i g) = ys @ zs"
proof -
  let ?P = "\<lambda>n. node_id n = i"
  from assms have ne: "findIndex ?P (nodes g) \<noteq> - 1"
    by (simp add: findIndex_none)
  from findIndex_first [OF ne] obtain ys a zs where
    h: "nodes g = ys @ a # zs" "node_id a = i" "\<forall>b\<in>set ys. node_id b \<noteq> i"
       "findIndex ?P (nodes g) = int (length ys)"
    by blast
  have "nodes (removeNode i g) = splice1 (findIndex ?P (nodes g)) (nodes g)"
    using ne by (simp add: removeNode_def Let_def)
  also have "\<dots> = ys @ zs"
    using h(1) h(4) splice1_at [of ys a zs] by simp
  finally show ?thesis using h by blast
qed

lemma removeNode_distinct_filter:
  assumes "distinct (map node_id (nodes g))"
  shows "nodes (removeNode i g) = filter (\<lambda>n. node_id n \<noteq> i) (nodes g)"
proof (cases "\<exists>n\<in>set (nodes g). node_id n = i")
  case False
  then have "\<forall>n\<in>set (nodes g). node_id n \<noteq> i" by blast
  then show ?thesis using removeNode_nodes_absent [of g i] by (simp add: filter_id_conv)
next
  case True
  from removeNode_nodes_present [OF True] obtain ys n zs where
    h: "nodes g = ys @ n # zs" "node_id n = i" "\<forall>m\<in>set ys. node_id m \<noteq> i"
       "nodes (removeNode i g) = ys @ zs"
    by blast
  from assms h(1) h(2) have "\<forall>m\<in>set zs. node_id m \<noteq> i"
    by (auto simp: image_iff)
  with h show ?thesis by (simp add: filter_id_conv)
qed

lemma removeNode_keeps_distinct:
  "distinct (map node_id (nodes g)) \<Longrightarrow> distinct (map node_id (nodes (removeNode i g)))"
  by (simp add: removeNode_distinct_filter distinct_map_filter)

lemma find_None_ids: "find (\<lambda>n. node_id n = k) ns = None \<longleftrightarrow> k \<notin> set (map node_id ns)"
  by (auto simp: find_None_iff)

lemma drawEdge_dangling: "\<not> resolves ns e \<Longrightarrow> drawEdge opts ns c e = c"
  by (auto simp: drawEdge_def resolves_def find_None_ids [symmetric] simp del: set_map split: option.splits)

lemma foldl_drawEdge_filter:
  "foldl (drawEdge opts ns) c es = foldl (drawEdge opts ns) c (filter (resolves ns) es)"
  by (induction es arbitrary: c) (simp_all add: drawEdge_dangling)

text \<open>
  Claim C10. For an edge one of whose ends names no node, \<open>drawEdge\<close> makes no call
  on the canvas context and returns; a full redraw of a graph with such edges
  is the redraw of the graph without them.
\<close>

theorem dangling_edges_skipped:
  "(\<not> resolves ns e \<longrightarrow> drawEdge opts ns c e = c)
   \<and> draw opts cw ch g c = draw opts cw ch (g\<lparr>edges := filter (resolves (nodes g)) (edges g)\<rparr>) c"
  using foldl_drawEdge_filter [of opts "nodes g" "c @ [ClearRect 0 0 cw ch]" "edges g"]
  by (simp add: draw_def drawEdge_dangling)

text \<open>Claim C10 at an edge from node 1 to a missing node 2.\<close>

theorem dangling_edges_skipped_witness:
  "\<not> resolves [\<lparr>node_id = 1, node_x = 0, node_y = 0\<rparr>] \<lparr>edge_to = 2, edge_from = 1\<rparr>
   \<and> drawEdge sample_options [\<lparr>node_id = 1, node_x = 0, node_y = 0\<rparr>] [BeginPath]
         \<lparr>edge_to = 2, edge_from = 1\<rparr> = [BeginPath]
   \<and> draw sample_options 300 150
         \<lparr>nodes = [\<lparr>node_id = 1, node_x = 0, node_y = 0\<rparr>],
          edges = [\<lparr>edge_to = 2, edge_from = 1\<rparr>]\<rparr> [BeginPath]
       = draw sample_options 300 150
         \<lparr>nodes = [\<lparr>node_id = 1, node_x = 0, node_y = 0\<rparr>], edges = []\<rparr> [BeginPath]"
proof -
  have h: "\<not> resolves [\<lparr>node_id = 1, node_x = 0, node_y = 0\<rparr>] \<lparr>edge_to = 2, edge_from = 1\<rparr>"
    by (simp add: resolves_def)
  have "filter (resolves [\<lparr>node_id = 1, node_x = 0, node_y = 0\<rparr>])
          [\<lparr>edge_to = 2, edge_from = 1\<rparr>] = []"
    using h by simp
  with h dangling_edges_skipped [of "[\<lparr>node_id = 1, node_x = 0, node_y = 0\<rparr>]"
      "\<lparr>edge_to = 2, edge_from = 1\<rparr>" sample_options "[BeginPath]" 300 150
      "\<lparr>nodes = [\<lparr>node_id = 1, node_x = 0, node_y = 0\<rparr>],
        edges = [\<lparr>edge_to = 2, edge_from = 1\<rparr>]\<rparr>"]
  show ?thesis by simp
qed

text \<open>
  Claim C4 does not hold of the code: with no explicit id, \<open>addNode\<close> assigns the number of
  nodes plus one. Two calls give the ids 1 and 2; after \<open>removeNode 1\<close> one node is left,
  so the next call assigns 2 again, and two nodes have the id 2.
\<close>

theorem auto_id_repeats_after_removal:
  "node_ids (run_ops [AddNode \<lparr>part_id = None, part_x = None, part_y = None\<rparr>,
                      AddNode \<lparr>part_id = None, part_x = None, part_y = None\<rparr>]) = [1, 2]
   \<and> node_ids (run_ops [AddNode \<lparr>part_id = None, part_x = None, part_y = None\<rparr>,
                        AddNode \<lparr>part_id = None, part_x = None, part_y = None\<rparr>,
                        RemoveNode 1,
                        AddNode \<lparr>part_id = None, part_x = None, part_y = None\<rparr>]) = [2, 2]
   \<and> \<not> distinct (node_ids (run_ops [AddNode \<lparr>part_id = None, part_x = None, part_y = None\<rparr>,
                        AddNode \<lparr>part_id = None, part_x = None, part_y = None\<rparr>,
                        RemoveNode 1,
                        AddNode \<lparr>part_id = None, part_x = None, part_y = None\<rparr>]))"
  by (simp add: run_ops_def empty_graph_def addNode_def removeNode_def node_ids_def or_else_def
      splice1_def Let_def)

text \<open>
  Claim C5. \<open>removeNode i\<close> leaves the nodes as they are when no node has id \<open>i\<close>;
  otherwise it takes out the first node with id \<open>i\<close> and keeps every other node, in
  order (so with unique ids it keeps exactly the nodes whose id is not \<open>i\<close>). It keeps
  exactly the edges that do not touch \<open>i\<close>, in order, and afterwards no edge refers to \<open>i\<close>.
\<close>

theorem removeNode_cascade:
  "((\<forall>n\<in>set (nodes g). node_id n \<noteq> i) \<longrightarrow> nodes (removeNode i g) = nodes g)
   \<and> ((\<exists>n\<in>set (nodes g). node_id n = i) \<longrightarrow>
        (\<exists>ys n zs. nodes g = ys @ n # zs \<and> node_id n = i \<and> (\<forall>m\<in>set ys. node_id m \<noteq> i)
                   \<and> nodes (removeNode i g) = ys @ zs))
   \<and> (distinct (map node_id (nodes g)) \<longrightarrow>
        nodes (removeNode i g) = filter (\<lambda>n. node_id n \<noteq> i) (nodes g))
   \<and> edges (removeNode i g) = filter (\<lambda>e. edge_from e \<noteq> i \<and> edge_to e \<noteq> i) (edges g)
   \<and> (\<forall>e\<in>set (edges (removeNode i g)). edge_from e \<noteq> i \<and> edge_to e \<noteq> i)"
proof -
  have e: "edges (removeNode i g) = filter (\<lambda>e. edge_from e \<noteq> i \<and> edge_to e \<noteq> i) (edges g)"
    by (rule removeNode_edges)
  have "\<forall>e\<in>set (edges (removeNode i g)). edge_from e \<noteq> i \<and> edge_to e \<noteq> i"
    by (simp add: e)
  with e removeNode_nodes_absent [of g i] removeNode_nodes_present [of g i]
    removeNode_distinct_filter [of g i]
  show ?thesis by blast
qed

text \<open>Claim C5 at the sample graph: removing node 2, and removing the absent node 7.\<close>

theorem removeNode_cascade_witness:
  "(\<exists>n\<in>set (nodes sample_graph). node_id n = 2)
   \<and> distinct (map node_id (nodes sample_graph))
   \<and> nodes (removeNode 2 sample_graph) =
       [\<lparr>node_id = 1, node_x = 0, node_y = 0\<rparr>, \<lparr>node_id = 3, node_x = 0, node_y = 50\<rparr>]
   \<and> edges (removeNode 2 sample_graph) = [\<lparr>edge_to = 1, edge_from = 3\<rparr>]
   \<and> list_all (\<lambda>n. node_id n \<noteq> 7) (nodes sample_graph)
   \<and> nodes (removeNode 7 sample_graph) = nodes sample_graph"
  using removeNode_cascade [of sample_graph 2] removeNode_cascade [of sample_graph 7]
  by (simp add: sample_graph_def)

section \<open>Properties of the direction angle\<close>

lemma sqrt_ratio:
  fixes a b :: real
  assumes "a \<noteq> 0"
  shows "sqrt (1 + (b / a)\<^sup>2) = sqrt (a\<^sup>2 + b\<^sup>2) / \<bar>a\<bar>"
proof -
  have "1 + (b / a)\<^sup>2 = (a\<^sup>2 + b\<^sup>2) / a\<^sup>2"
    using assms by (simp add: power_divide add_divide_distrib)
  then show ?thesis
    by (simp add: real_sqrt_divide)
qed

lemma norm_pos:
  fixes a b :: real
  assumes "a \<noteq> 0 \<or> b \<noteq> 0"
  shows "0 < sqrt (a\<^sup>2 + b\<^sup>2)"
proof -
  have "0 < a\<^sup>2 + b\<^sup>2"
    using assms by (metis add.commute not_sum_power2_lt_zero power2_less_0 sum_power2_gt_zero_iff linorder_neqE_linordered_idom)
  then show ?thesis by simp
qed

lemma cos_atan2:
  assumes "a \<noteq> 0 \<or> b \<noteq> 0"
  shows "cos (atan2 b a) = a / sqrt (a\<^sup>2 + b\<^sup>2)"
proof -
  consider "0 < a" | "a < 0" | "a = 0" "0 < b" | "a = 0" "b < 0"
    using assms by fastforce
  then show ?thesis
  proof cases
    case 1
    then show ?thesis by (simp add: atan2_def cos_arctan sqrt_ratio)
  next
    case 2
    then show ?thesis by (simp add: atan2_def cos_arctan sqrt_ratio)
  next
    case 3
    then show ?thesis by (simp add: atan2_def)
  next
    case 4
    then show ?thesis by (simp add: atan2_def)
  qed
qed

lemma sin_atan2:
  assumes "a \<noteq> 0 \<or> b \<noteq> 0"
  shows "sin (atan2 b a) = b / sqrt (a\<^sup>2 + b\<^sup>2)"
proof -
  consider "0 < a" | "a < 0" | "a = 0" "0 < b" | "a = 0" "b < 0"
    using assms by fastforce
  then show ?thesis
  proof cases
    case 1
    then show ?thesis by (simp add: atan2_def sin_arctan sqrt_ratio)
  next
    case 2
    then show ?thesis by (simp add: atan2_def sin_arctan sqrt_ratio)
  next
    case 3
    then show ?thesis by (simp add: atan2_def)
  next
    case 4
    then show ?thesis by (simp add: atan2_def)
  qed
qed

lemma atan2_origin: "atan2 0 0 = 0"
  by (simp add: atan2_def)

lemma atan2_opposite:
  assumes "a \<noteq> 0 \<or> b \<noteq> 0"
  shows "atan2 b a - atan2 (- b) (- a) = pi \<or> atan2 b a - atan2 (- b) (- a) = - pi"
  using assms by (auto simp: atan2_def)

lemma Point_neq:
  fixes a b :: Point
  assumes "a \<noteq> b"
  shows "px b - px a \<noteq> 0 \<or> py b - py a \<noteq> 0"
  using assms by (cases a, cases b) auto

text \<open>
  Claim C8. For distinct points \<open>a\<close> and \<open>b\<close>, the direction angle from \<open>a\<close> to \<open>b\<close> and the
  one from \<open>b\<close> to \<open>a\<close> differ by \<open>\<pi>\<close> in absolute value, hence by \<open>\<pi>\<close> modulo \<open>2\<pi>\<close>.
\<close>

theorem opposite_directions_differ_by_pi:
  fixes a b :: Point
  assumes "a \<noteq> b"
  shows "\<bar>atan2 (py b - py a) (px b - px a) - atan2 (py a - py b) (px a - px b)\<bar> = pi
         \<and> (\<exists>k::int. atan2 (py b - py a) (px b - px a) - atan2 (py a - py b) (px a - px b)
                        = pi + 2 * pi * of_int k)"
proof -
  let ?d = "atan2 (py b - py a) (px b - px a) - atan2 (py a - py b) (px a - px b)"
  from Point_neq [OF assms]
  have "atan2 (py b - py a) (px b - px a) - atan2 (- (py b - py a)) (- (px b - px a)) = pi
      \<or> atan2 (py b - py a) (px b - px a) - atan2 (- (py b - py a)) (- (px b - px a)) = - pi"
    by (intro atan2_opposite) blast
  then have d: "?d = pi \<or> ?d = - pi" by simp
  then have "\<bar>?d\<bar> = pi" by auto
  moreover have "\<exists>k::int. ?d = pi + 2 * pi * of_int k"
  proof -
    from d show ?thesis
    proof
      assume "?d = pi"
      then have "?d = pi + 2 * pi * of_int (0::int)" by simp
      then show ?thesis by blast
    next
      assume "?d = - pi"
      then have "?d = pi + 2 * pi * of_int (- 1::int)" by simp
      then show ?thesis by blast
    qed
  qed
  ultimately show ?thesis by blast
qed

text \<open>Claim C8 at the points (0,0) and (1,1).\<close>

theorem opposite_directions_differ_by_pi_witness:
  "\<lparr>px = 0, py = 0\<rparr> \<noteq> \<lparr>px = 1, py = 1\<rparr>
   \<and> \<bar>atan2 (1 - 0) (1 - 0) - atan2 (0 - 1) (0 - 1)\<bar> = pi"
  using opposite_directions_differ_by_pi [of "\<lparr>px = 0, py = 0\<rparr>" "\<lparr>px = 1, py = 1\<rparr>"]
  by simp

section \<open>Properties of the straight arrow\<close>

lemma pdist_pos: "a \<noteq> b \<Longrightarrow> 0 < pdist a b"
  unfolding pdist_def using Point_neq [of a b] by (intro norm_pos) blast

lemma dir_cos_sin:
  assumes "a \<noteq> b"
  shows "cos (atan2 (py b - py a) (px b - px a)) = px (unit_dir a b)"
    and "sin (atan2 (py b - py a) (px b - px a)) = py (unit_dir a b)"
  using Point_neq [OF assms]
  by (simp_all add: cos_atan2 sin_atan2 unit_dir_def pdist_def)

lemma quarter_turn:
  "cos (t + pi / 2) = - sin t" "sin (t + pi / 2) = cos t"
  by (simp_all add: cos_add sin_add)

lemma unit_dir_norm:
  assumes "a \<noteq> b"
  shows "(px (unit_dir a b))\<^sup>2 + (py (unit_dir a b))\<^sup>2 = 1"
proof -
  have p: "0 < pdist a b" by (rule pdist_pos [OF assms])
  have "(px b - px a)\<^sup>2 + (py b - py a)\<^sup>2 = (pdist a b)\<^sup>2"
    by (simp add: pdist_def)
  then have "((px b - px a)\<^sup>2 + (py b - py a)\<^sup>2) / (pdist a b)\<^sup>2
      = (pdist a b)\<^sup>2 / (pdist a b)\<^sup>2"
    by (simp only:)
  also have "\<dots> = 1" using p by simp
  finally have "((px b - px a)\<^sup>2 + (py b - py a)\<^sup>2) / (pdist a b)\<^sup>2 = 1" .
  then show ?thesis
    by (simp add: unit_dir_def power_divide add_divide_distrib)
qed

lemma pdist_move:
  "pdist (move p k v) p = \<bar>k\<bar> * sqrt ((px v)\<^sup>2 + (py v)\<^sup>2)"
proof -
  have "(px p - (px p + k * px v))\<^sup>2 + (py p - (py p + k * py v))\<^sup>2
        = k\<^sup>2 * ((px v)\<^sup>2 + (py v)\<^sup>2)"
    by (simp add: power2_eq_square algebra_simps)
  then show ?thesis
    by (simp add: pdist_def move_def real_sqrt_mult)
qed

lemma pdist_move_unit:
  assumes "(px v)\<^sup>2 + (py v)\<^sup>2 = 1"
  shows "pdist (move p k v) p = \<bar>k\<bar>"
  by (simp add: pdist_move assms)

lemma scaled_sum:
  fixes a b d k :: real
  shows "a * (k * (a / d)) + b * (k * (b / d)) = k * ((a * a + b * b) / d)"
  by (simp add: algebra_simps add_divide_distrib)

lemma perp_norm: "(px (perp v))\<^sup>2 + (py (perp v))\<^sup>2 = (px v)\<^sup>2 + (py v)\<^sup>2"
  by (simp add: perp_def)

text \<open>
  Claim C9. For a line with distinct start and end, \<open>drawArrow\<close> draws the shaft as the Line
  from the start to the epicenter, the end pulled back by exactly 25 along the direction
  from start to end, and the head as the Triangle whose apex is the end of the line and
  whose base points are the epicenter moved across the direction by \<open>25 / 1.75\<close>, one to
  each side.
\<close>

theorem drawArrow_shaft_and_head:
  assumes "line_start l \<noteq> line_end l"
  shows "drawArrow c l =
           drawTriangle
             (drawLine c \<lparr>line_start = line_start l, line_end = arrow_epicenter l,
                           line_color = Some (color_or_black (line_color l)),
                           line_width = line_width l\<rparr>)
             \<lparr>point1 = line_end l, point2 = arrow_base l 1, point3 = arrow_base l (- 1),
              tri_color = Some (color_or_black (line_color l))\<rparr>
         \<and> pdist (arrow_epicenter l) (line_end l) = 25
         \<and> dot (line_start l) (line_end l) (arrow_epicenter l) (line_end l)
             = 25 * pdist (line_start l) (line_end l)
         \<and> pdist (arrow_base l 1) (arrow_epicenter l) = 25 / 1.75
         \<and> pdist (arrow_base l (- 1)) (arrow_epicenter l) = 25 / 1.75
         \<and> dot (line_start l) (line_end l) (arrow_epicenter l) (arrow_base l 1) = 0
         \<and> dot (line_start l) (line_end l) (arrow_epicenter l) (arrow_base l (- 1)) = 0
         \<and> arrow_base l 1 \<noteq> arrow_base l (- 1)"
proof -
  let ?u = "unit_dir (line_start l) (line_end l)"
  have n: "(px ?u)\<^sup>2 + (py ?u)\<^sup>2 = 1" by (rule unit_dir_norm [OF assms])
  have pn: "(px (perp ?u))\<^sup>2 + (py (perp ?u))\<^sup>2 = 1" by (simp only: perp_norm n)
  have p: "0 < pdist (line_start l) (line_end l)" by (rule pdist_pos [OF assms])
  have a: "drawArrow c l =
           drawTriangle
             (drawLine c \<lparr>line_start = line_start l, line_end = arrow_epicenter l,
                           line_color = Some (color_or_black (line_color l)),
                           line_width = line_width l\<rparr>)
             \<lparr>point1 = line_end l, point2 = arrow_base l 1, point3 = arrow_base l (- 1),
              tri_color = Some (color_or_black (line_color l))\<rparr>"
    by (simp add: drawArrow_def Let_def dir_cos_sin [OF assms] quarter_turn arrow_epicenter_def
        arrow_base_def move_def perp_def)
  have b: "pdist (arrow_epicenter l) (line_end l) = 25"
    unfolding arrow_epicenter_def by (simp add: pdist_move_unit [OF n])
  have c1: "pdist (arrow_base l 1) (arrow_epicenter l) = 25 / 1.75"
    unfolding arrow_base_def by (simp add: pdist_move_unit [OF pn])
  have c2: "pdist (arrow_base l (- 1)) (arrow_epicenter l) = 25 / 1.75"
    unfolding arrow_base_def by (simp add: pdist_move_unit [OF pn])
  have d1: "dot (line_start l) (line_end l) (arrow_epicenter l) (arrow_base l 1) = 0"
    by (simp add: dot_def arrow_base_def move_def perp_def unit_dir_def algebra_simps)
  have d2: "dot (line_start l) (line_end l) (arrow_epicenter l) (arrow_base l (- 1)) = 0"
    by (simp add: dot_def arrow_base_def move_def perp_def unit_dir_def algebra_simps)
  have e: "dot (line_start l) (line_end l) (arrow_epicenter l) (line_end l)
             = 25 * pdist (line_start l) (line_end l)"
  proof -
    let ?d = "pdist (line_start l) (line_end l)"
    let ?a = "px (line_end l) - px (line_start l)"
    let ?b = "py (line_end l) - py (line_start l)"
    have sq: "?a * ?a + ?b * ?b = ?d * ?d"
      by (simp add: pdist_def power2_eq_square [symmetric])
    have x: "px (line_end l) - px (arrow_epicenter l) = 25 * (?a / ?d)"
      using p by (simp add: arrow_epicenter_def move_def unit_dir_def field_simps)
    have y: "py (line_end l) - py (arrow_epicenter l) = 25 * (?b / ?d)"
      using p by (simp add: arrow_epicenter_def move_def unit_dir_def field_simps)
    have "dot (line_start l) (line_end l) (arrow_epicenter l) (line_end l)
          = ?a * (25 * (?a / ?d)) + ?b * (25 * (?b / ?d))"
      by (simp only: dot_def x y)
    also have "\<dots> = 25 * ((?a * ?a + ?b * ?b) / ?d)"
      by (rule scaled_sum)
    also have "\<dots> = 25 * ?d" using p by (simp add: sq)
    finally show ?thesis .
  qed
  have f: "arrow_base l 1 \<noteq> arrow_base l (- 1)"
  proof
    assume h: "arrow_base l 1 = arrow_base l (- 1)"
    then have "px (arrow_base l 1) = px (arrow_base l (- 1))"
      and "py (arrow_base l 1) = py (arrow_base l (- 1))" by simp_all
    then have "py ?u = 0" "px ?u = 0"
      by (simp_all add: arrow_base_def move_def perp_def)
    with n show False by simp
  qed
  from a b c1 c2 d1 d2 e f show ?thesis by blast
qed

lemma sqrt_100: "sqrt 10000 = 100"
  using real_sqrt_abs [of 100] by simp

text \<open>Claim C9 at the line from (0,0) to (100,0): the calls made on the canvas.\<close>

theorem drawArrow_shaft_and_head_witness:
  "line_start sample_line \<noteq> line_end sample_line
   \<and> drawArrow [] sample_line =
       [BeginPath, MoveTo 0 0, LineTo 75 0, SetStrokeStyle ''black'', SetLineWidth 10, Stroke,
        ClosePath,
        BeginPath, MoveTo 100 0, LineTo 75 (100 / 7), LineTo 75 (- (100 / 7)),
        SetFillStyle ''black'', Fill, ClosePath]"
proof -
  have h: "line_start sample_line \<noteq> line_end sample_line"
    by (simp add: sample_line_def)
  have d: "pdist (line_start sample_line) (line_end sample_line) = 100"
    by (simp add: sample_line_def pdist_def sqrt_100)
  have e: "arrow_epicenter sample_line = \<lparr>px = 75, py = 0\<rparr>"
    unfolding arrow_epicenter_def unit_dir_def d by (simp add: sample_line_def move_def)
  have b1: "arrow_base sample_line 1 = \<lparr>px = 75, py = 100 / 7\<rparr>"
    unfolding arrow_base_def e unit_dir_def d by (simp add: sample_line_def move_def perp_def)
  have b2: "arrow_base sample_line (- 1) = \<lparr>px = 75, py = - (100 / 7)\<rparr>"
    unfolding arrow_base_def e unit_dir_def d by (simp add: sample_line_def move_def perp_def)
  from drawArrow_shaft_and_head [OF h, of "[]"]
  have "drawArrow [] sample_line =
           drawTriangle
             (drawLine [] \<lparr>line_start = line_start sample_line, line_end = arrow_epicenter sample_line,
                           line_color = Some (color_or_black (line_color sample_line)),
                           line_width = line_width sample_line\<rparr>)
             \<lparr>point1 = line_end sample_line, point2 = arrow_base sample_line 1,
              point3 = arrow_base sample_line (- 1),
              tri_color = Some (color_or_black (line_color sample_line))\<rparr>"
    by blast
  then have "drawArrow [] sample_line =
       [BeginPath, MoveTo 0 0, LineTo 75 0, SetStrokeStyle ''black'', SetLineWidth 10, Stroke,
        ClosePath,
        BeginPath, MoveTo 100 0, LineTo 75 (100 / 7), LineTo 75 (- (100 / 7)),
        SetFillStyle ''black'', Fill, ClosePath]"
    unfolding e b1 b2 by (simp add: drawTriangle_def drawLine_def sample_line_def color_or_black_def)
  with h show ?thesis by blast
qed

section \<open>Properties of the edge schematic builder\<close>

lemma find_at_Some:
  "find_at k P xs = Some (i, a) \<Longrightarrow> P a \<and> a \<in> set xs \<and> k \<le> i \<and> i < k + length xs \<and> xs ! (i - k) = a"
proof (induction xs arbitrary: k)
  case Nil
  then show ?case by simp
next
  case (Cons b xs)
  show ?case
  proof (cases "P b")
    case True
    with Cons.prems show ?thesis by auto
  next
    case False
    with Cons.prems have "find_at (Suc k) P xs = Some (i, a)" by simp
    from Cons.IH [OF this] have h: "P a" "a \<in> set xs" "Suc k \<le> i" "i < Suc k + length xs"
      "xs ! (i - Suc k) = a" by simp_all
    from h(3) have "i - k = Suc (i - Suc k)" by simp
    with h show ?thesis by simp
  qed
qed

lemma find_at_None: "find_at k P xs = None \<longleftrightarrow> (\<forall>a\<in>set xs. \<not> P a)"
  by (induction xs arbitrary: k) auto


lemma getFromToNodes_Inr:
  assumes "getFromToNodes e ns = Inr ((fi, f), (ti, t))"
  shows "find_at 0 (\<lambda>n. label n = gfrom e) ns = Some (fi, f)"
    and "find_at 0 (\<lambda>n. label n = gto e) ns = Some (ti, t)"
  using assms by (auto simp: getFromToNodes_def split: option.splits)

lemma getFromToNodes_labels:
  assumes "getFromToNodes e ns = Inr ((fi, f), (ti, t))"
  shows "label f = gfrom e \<and> label t = gto e \<and> f \<in> set ns \<and> t \<in> set ns"
  using getFromToNodes_Inr [OF assms] find_at_Some [of 0 "\<lambda>n. label n = gfrom e" ns fi f]
    find_at_Some [of 0 "\<lambda>n. label n = gto e" ns ti t]
  by simp


lemma getFromToNodes_resolvable:
  "resolvable ns e \<longleftrightarrow> (\<exists>r. getFromToNodes e ns = Inr r)"
proof -
  have a: "gfrom e \<in> set (map label ns) \<longleftrightarrow> find_at 0 (\<lambda>n. label n = gfrom e) ns \<noteq> None"
    by (simp add: find_at_None image_iff) metis
  have b: "gto e \<in> set (map label ns) \<longleftrightarrow> find_at 0 (\<lambda>n. label n = gto e) ns \<noteq> None"
    by (simp add: find_at_None image_iff) metis
  show ?thesis
    unfolding resolvable_def a b
    by (auto simp: getFromToNodes_def split: option.splits)
qed

lemma getFromToNodes_reverse:
  assumes "getFromToNodes e ns = Inr (F, T)"
  shows "getFromToNodes (reverse_edge e) ns = Inr (T, F)"
  using assms by (auto simp: getFromToNodes_def reverse_edge_def split: option.splits)





text \<open>
  Claim C7. For the nodes A at (0,0) and B at (100,0), the single edge from A to B and node
  size 35, the schematic is the Straight form from (0,0) to (55,0), with no lateral offset.
\<close>

theorem single_edge_schematic:
  "getEdgeSchematic edge_AB [node_A, node_B] [edge_AB] default_options =
     Inr (Straight \<lparr>arrow_start = \<lparr>px = 0, py = 0\<rparr>, arrow_end = \<lparr>px = 55, py = 0\<rparr>,
                     arrow_color = ''black'', arrow_width = 10\<rparr>)"
  by (simp add: getEdgeSchematic_def getFromToNodes_def node_A_def node_B_def edge_AB_def
      default_options_def isBidirectional_def occupied_def otherEnd_def atan2_def Let_def)

lemma all_or_error_Inr:
  "\<forall>r\<in>set rs. \<exists>a. r = Inr a \<Longrightarrow> \<exists>as. all_or_error rs = Inr as"
proof (induction rs)
  case Nil
  show ?case by simp
next
  case (Cons r rs)
  then obtain a as where "r = Inr a" "all_or_error rs = Inr as" by auto
  then show ?case by simp
qed

lemma otherEnd_Inr:
  assumes "resolvable ns e"
  shows "\<exists>p. otherEnd f ns e = Inr p"
proof -
  from assms obtain r where "getFromToNodes e ns = Inr r"
    using getFromToNodes_resolvable by blast
  then show ?thesis
    by (cases r) (auto simp: otherEnd_def split: prod.splits)
qed

lemma occupied_Inr:
  assumes "list_all (resolvable ns) es"
  shows "\<exists>pts. occupied f t ns es = Inr pts"
  unfolding occupied_def
proof (rule all_or_error_Inr, rule ballI)
  fix r
  assume "r \<in> set (map (otherEnd f ns)
     (filter (\<lambda>e. (gfrom e = label f \<or> gto e = label t) \<and> gfrom e \<noteq> gto e) es))"
  then obtain e where "e \<in> set es" "r = otherEnd f ns e" by auto
  with assms otherEnd_Inr [of ns e f] show "\<exists>a. r = Inr a"
    by (auto simp: list_all_iff)
qed

lemma straight_form:
  assumes "getFromToNodes e ns = Inr ((fi, f), (ti, t))" and "fi \<noteq> ti"
    and "list_all (resolvable ns) es"
  shows "getEdgeSchematic e ns es opts =
     Inr (Straight
       \<lparr>arrow_start =
          (if isBidirectional es f t
           then \<lparr>px = gx f + cos (atan2 (gy t - gy f) (gx t - gx f) + pi / 2) * 12,
                 py = gy f + sin (atan2 (gy t - gy f) (gx t - gx f) + pi / 2) * 12\<rparr>
           else \<lparr>px = gx f, py = gy f\<rparr>),
        arrow_end =
          (if isBidirectional es f t
           then \<lparr>px = gx t - (getValue (opt_nodeSize opts) t + 10) * cos (atan2 (gy t - gy f) (gx t - gx f))
                       + cos (atan2 (gy t - gy f) (gx t - gx f) + pi / 2) * 12,
                 py = gy t - (getValue (opt_nodeSize opts) t + 10) * sin (atan2 (gy t - gy f) (gx t - gx f))
                       + sin (atan2 (gy t - gy f) (gx t - gx f) + pi / 2) * 12\<rparr>
           else \<lparr>px = gx t - (getValue (opt_nodeSize opts) t + 10) * cos (atan2 (gy t - gy f) (gx t - gx f)),
                 py = gy t - (getValue (opt_nodeSize opts) t + 10) * sin (atan2 (gy t - gy f) (gx t - gx f))\<rparr>),
        arrow_color = getValue (opt_edgeColor opts) e,
        arrow_width = getValue (opt_edgeWidth opts) e\<rparr>)"
proof -
  from occupied_Inr [OF assms(3)] obtain pts where "occupied f t ns es = Inr pts" by blast
  with assms(1,2) show ?thesis
    by (simp add: getEdgeSchematic_def Let_def)
qed

lemma pulled_back_dist:
  "pdist \<lparr>px = a - r * cos w, py = b - r * sin w\<rparr> \<lparr>px = a, py = b\<rparr> = \<bar>r\<bar>"
proof -
  have "(r * cos w)\<^sup>2 + (r * sin w)\<^sup>2 = r\<^sup>2 * ((cos w)\<^sup>2 + (sin w)\<^sup>2)"
    by (simp only: power_mult_distrib distrib_left)
  also have "\<dots> = r\<^sup>2" by (simp only: sin_cos_squared_add2 mult_1_right)
  finally show ?thesis by (simp add: pdist_def)
qed

lemma atan2_collinear:
  "a * sin (atan2 b a) = b * cos (atan2 b a)"
proof (cases "a \<noteq> 0 \<or> b \<noteq> 0")
  case True
  then show ?thesis by (simp add: cos_atan2 sin_atan2)
next
  case False
  then show ?thesis by simp
qed

text \<open>
  Claim C1, as amended. For an edge whose ends resolve to two different nodes, with no
  reverse edge in the collection and a node size of at least -10, the schematic is a
  Straight form that starts at the source, whose end lies on the line from the start to the
  destination, at distance exactly node size plus 10 from the destination's centre, pulled
  back toward the start.
\<close>

theorem straight_end_clearance:
  assumes "getFromToNodes e ns = Inr ((fi, f), (ti, t))" and "fi \<noteq> ti"
    and "list_all (resolvable ns) es"
    and "\<not> isBidirectional es f t"
    and "0 \<le> getValue (opt_nodeSize opts) t + 10"
  shows "\<exists>a. getEdgeSchematic e ns es opts = Inr (Straight a)
           \<and> arrow_start a = node_pos f
           \<and> pdist (arrow_end a) (node_pos t) = getValue (opt_nodeSize opts) t + 10
           \<and> collinear (arrow_start a) (arrow_end a) (node_pos t)
           \<and> (node_pos f \<noteq> node_pos t \<longrightarrow>
                arrow_end a = move (node_pos t) (- (getValue (opt_nodeSize opts) t + 10))
                                (unit_dir (node_pos f) (node_pos t)))"
proof -
  let ?r = "getValue (opt_nodeSize opts) t + 10"
  let ?w = "atan2 (gy t - gy f) (gx t - gx f)"
  let ?a = "\<lparr>arrow_start = \<lparr>px = gx f, py = gy f\<rparr>,
             arrow_end = \<lparr>px = gx t - ?r * cos ?w, py = gy t - ?r * sin ?w\<rparr>,
             arrow_color = getValue (opt_edgeColor opts) e,
             arrow_width = getValue (opt_edgeWidth opts) e\<rparr>"
  have s: "getEdgeSchematic e ns es opts = Inr (Straight ?a)"
    using straight_form [OF assms(1,2,3), of opts] assms(4) by simp
  have st: "arrow_start ?a = node_pos f" by (simp add: node_pos_def)
  have d: "pdist (arrow_end ?a) (node_pos t) = ?r"
    using pulled_back_dist [of "gx t" ?r ?w "gy t"] assms(5) by (simp add: node_pos_def)
  have c: "collinear (arrow_start ?a) (arrow_end ?a) (node_pos t)"
  proof -
    have "(gx t - gx f) * sin ?w = (gy t - gy f) * cos ?w" by (rule atan2_collinear)
    then have "?r * ((gx t - gx f) * sin ?w) = ?r * ((gy t - gy f) * cos ?w)" by simp
    then show ?thesis
      by (simp add: collinear_def node_pos_def algebra_simps)
  qed
  have m: "node_pos f \<noteq> node_pos t \<longrightarrow>
            arrow_end ?a = move (node_pos t) (- ?r) (unit_dir (node_pos f) (node_pos t))"
  proof
    assume ne: "node_pos f \<noteq> node_pos t"
    from dir_cos_sin [OF ne]
    have "cos ?w = px (unit_dir (node_pos f) (node_pos t))"
      and "sin ?w = py (unit_dir (node_pos f) (node_pos t))"
      by (simp_all add: node_pos_def)
    then show "arrow_end ?a = move (node_pos t) (- ?r) (unit_dir (node_pos f) (node_pos t))"
      by (simp add: move_def node_pos_def algebra_simps)
  qed
  from s st d c m show ?thesis by blast
qed

lemma resolve_AB:
  "getFromToNodes edge_AB [node_A, node_B] = Inr ((0, node_A), (1, node_B))"
  by (simp add: getFromToNodes_def edge_AB_def node_A_def node_B_def)

lemma sqrt_2169: "sqrt 2169 \<noteq> 45"
proof
  assume "sqrt 2169 = 45"
  then have "(sqrt 2169)\<^sup>2 = 45\<^sup>2" by simp
  then show False by simp
qed

text \<open>The amended claim C1 at the single edge from A to B.\<close>

theorem straight_end_clearance_witness:
  "getFromToNodes edge_AB [node_A, node_B] = Inr ((0, node_A), (1, node_B))
   \<and> list_all (resolvable [node_A, node_B]) [edge_AB]
   \<and> \<not> isBidirectional [edge_AB] node_A node_B
   \<and> (\<exists>a. getEdgeSchematic edge_AB [node_A, node_B] [edge_AB] default_options = Inr (Straight a)
          \<and> arrow_start a = node_pos node_A
          \<and> pdist (arrow_end a) (node_pos node_B) = 45)"
proof -
  have i: "list_all (resolvable [node_A, node_B]) [edge_AB]"
    by (simp add: resolvable_def edge_AB_def node_A_def node_B_def)
  have b: "\<not> isBidirectional [edge_AB] node_A node_B"
    by (simp add: isBidirectional_def edge_AB_def node_A_def node_B_def)
  have n: "(0::nat) \<noteq> 1" by simp
  have r: "0 \<le> getValue (opt_nodeSize default_options) node_B + 10"
    by (simp add: default_options_def)
  from straight_end_clearance [OF resolve_AB n i b r]
  obtain a where "getEdgeSchematic edge_AB [node_A, node_B] [edge_AB] default_options = Inr (Straight a)"
    "arrow_start a = node_pos node_A"
    "pdist (arrow_end a) (node_pos node_B) = getValue (opt_nodeSize default_options) node_B + 10"
    by blast
  then have "\<exists>a. getEdgeSchematic edge_AB [node_A, node_B] [edge_AB] default_options = Inr (Straight a)
          \<and> arrow_start a = node_pos node_A
          \<and> pdist (arrow_end a) (node_pos node_B) = 45"
    by (auto simp: default_options_def)
  with resolve_AB i b show ?thesis by blast
qed

text \<open>
  Claim C1 as stated fails when the reverse edge is present: the end of the edge from A to B
  is then moved sideways by 12 to (55,12), which is not at distance 45 from B at (100,0) and
  not on the line from the start (0,12) to B. It also fails for a node size below -10: with
  node size -20 the end is (110,0), at distance 10 and not -10.
\<close>

theorem straight_end_clearance_counterexample:
  "getEdgeSchematic edge_AB [node_A, node_B] [edge_AB, edge_BA] default_options =
     Inr (Straight \<lparr>arrow_start = \<lparr>px = 0, py = 12\<rparr>, arrow_end = \<lparr>px = 55, py = 12\<rparr>,
                     arrow_color = ''black'', arrow_width = 10\<rparr>)
   \<and> pdist \<lparr>px = 55, py = 12\<rparr> (node_pos node_B) \<noteq> 35 + 10
   \<and> \<not> collinear \<lparr>px = 0, py = 12\<rparr> \<lparr>px = 55, py = 12\<rparr> (node_pos node_B)
   \<and> getEdgeSchematic edge_AB [node_A, node_B] [edge_AB]
        \<lparr>opt_nodeSize = Literal (- 20), opt_edgeWidth = Literal 10,
         opt_edgeColor = Literal ''black''\<rparr> =
     Inr (Straight \<lparr>arrow_start = \<lparr>px = 0, py = 0\<rparr>, arrow_end = \<lparr>px = 110, py = 0\<rparr>,
                     arrow_color = ''black'', arrow_width = 10\<rparr>)
   \<and> pdist \<lparr>px = 110, py = 0\<rparr> (node_pos node_B) \<noteq> - 20 + 10"
proof -
  have a: "getEdgeSchematic edge_AB [node_A, node_B] [edge_AB, edge_BA] default_options =
     Inr (Straight \<lparr>arrow_start = \<lparr>px = 0, py = 12\<rparr>, arrow_end = \<lparr>px = 55, py = 12\<rparr>,
                     arrow_color = ''black'', arrow_width = 10\<rparr>)"
    by (simp add: getEdgeSchematic_def getFromToNodes_def node_A_def node_B_def edge_AB_def
        edge_BA_def default_options_def isBidirectional_def occupied_def otherEnd_def atan2_def
        Let_def)
  have b: "pdist \<lparr>px = 55, py = 12\<rparr> (node_pos node_B) \<noteq> 35 + 10"
    using sqrt_2169 by (simp add: pdist_def node_pos_def node_B_def)
  have c: "\<not> collinear \<lparr>px = 0, py = 12\<rparr> \<lparr>px = 55, py = 12\<rparr> (node_pos node_B)"
    by (simp add: collinear_def node_pos_def node_B_def)
  have d: "getEdgeSchematic edge_AB [node_A, node_B] [edge_AB]
        \<lparr>opt_nodeSize = Literal (- 20), opt_edgeWidth = Literal 10,
         opt_edgeColor = Literal ''black''\<rparr> =
     Inr (Straight \<lparr>arrow_start = \<lparr>px = 0, py = 0\<rparr>, arrow_end = \<lparr>px = 110, py = 0\<rparr>,
                     arrow_color = ''black'', arrow_width = 10\<rparr>)"
    by (simp add: getEdgeSchematic_def getFromToNodes_def node_A_def node_B_def edge_AB_def
        isBidirectional_def occupied_def otherEnd_def atan2_def Let_def)
  have e: "pdist \<lparr>px = 110, py = 0\<rparr> (node_pos node_B) \<noteq> - 20 + 10"
    by (simp add: pdist_def node_pos_def node_B_def)
  from a b c d e show ?thesis by blast
qed

lemma largest_space_single:
  "getLargestAngularSpace origin [p] = atan2 (py p - py origin) (px p - px origin) + pi"
  by (simp add: getLargestAngularSpace_def angular_gaps_def)

text \<open>
  Claim C2 does not hold of the code: for the self-loop at A = (0,0), in a collection that
  also holds the edge from A to C = (10,6), the loop matches itself as its own reverse edge,
  so the start point is moved to (0,12) before it is used as the origin of
  \<open>getLargestAngularSpace\<close>; the angle differs from the one taken from the node's own position,
  which the loop's \<open>center\<close> still uses.
\<close>

theorem self_loop_angle_origin_shifted:
  "getEdgeSchematic edge_AA [node_A, node_C] [edge_AA, edge_AC] default_options =
     Inr (SelfLoop \<lparr>ut_spacing = 12, ut_center = \<lparr>px = 0, py = 0\<rparr>, ut_upDistance = 80,
                     ut_downDistance = 25,
                     ut_angle = getLargestAngularSpace \<lparr>px = 0, py = 12\<rparr> [\<lparr>px = 10, py = 6\<rparr>],
                     ut_lineWidth = 10, ut_color = ''black''\<rparr>)
   \<and> getLargestAngularSpace \<lparr>px = 0, py = 12\<rparr> [\<lparr>px = 10, py = 6\<rparr>]
       \<noteq> getLargestAngularSpace (node_pos node_A) [\<lparr>px = 10, py = 6\<rparr>]"
proof -
  have a: "getEdgeSchematic edge_AA [node_A, node_C] [edge_AA, edge_AC] default_options =
     Inr (SelfLoop \<lparr>ut_spacing = 12, ut_center = \<lparr>px = 0, py = 0\<rparr>, ut_upDistance = 80,
                     ut_downDistance = 25,
                     ut_angle = getLargestAngularSpace \<lparr>px = 0, py = 12\<rparr> [\<lparr>px = 10, py = 6\<rparr>],
                     ut_lineWidth = 10, ut_color = ''black''\<rparr>)"
    by (simp add: getEdgeSchematic_def getFromToNodes_def node_A_def node_C_def edge_AA_def
        edge_AC_def default_options_def isBidirectional_def occupied_def otherEnd_def atan2_def
        Let_def)
  have "arctan (- 6 / 10) \<noteq> arctan (6 / 10)"
    by (simp add: arctan_eq_iff)
  then have b: "getLargestAngularSpace \<lparr>px = 0, py = 12\<rparr> [\<lparr>px = 10, py = 6\<rparr>]
       \<noteq> getLargestAngularSpace (node_pos node_A) [\<lparr>px = 10, py = 6\<rparr>]"
    by (simp add: largest_space_single node_pos_def node_A_def atan2_def)
  from a b show ?thesis by blast
qed

lemma quarter_turn_left:
  "cos (pi / 2 + t) = - sin t" "sin (pi / 2 + t) = cos t"
  by (simp_all add: cos_add sin_add)

lemma pdist_sym: "pdist b a = pdist a b"
  by (simp add: pdist_def power2_commute)

lemma unit_dir_swap:
  "px (unit_dir b a) = - px (unit_dir a b)" "py (unit_dir b a) = - py (unit_dir a b)"
  by (simp_all add: unit_dir_def pdist_sym [of b a] minus_divide_left)

lemma move_to_target:
  assumes "a \<noteq> b"
  shows "b = move a (pdist a b) (unit_dir a b)"
proof -
  have "0 < pdist a b" by (rule pdist_pos [OF assms])
  then show ?thesis
    by (cases b) (simp add: move_def unit_dir_def)
qed

lemma ring_24:
  fixes ux uy k x y :: real
  assumes "ux\<^sup>2 + uy\<^sup>2 = 1"
    and "- (24 * uy) + k * ux = 0" and "24 * ux + k * uy = 0"
  shows False
proof -
  have "(24 * ux + k * uy) * ux - (- (24 * uy) + k * ux) * uy = 24 * (ux\<^sup>2 + uy\<^sup>2)"
    by (simp add: power2_eq_square algebra_simps)
  with assms show False by simp
qed

lemma lanes_apart:
  assumes n: "(px u)\<^sup>2 + (py u)\<^sup>2 = 1" and b: "b = move a d u"
    and s1: "arrow_start s1 = move a 12 (perp u)" "arrow_end s1 = move (move b (- rb) u) 12 (perp u)"
    and s2: "arrow_start s2 = move b (- 12) (perp u)" "arrow_end s2 = move (move a ra u) (- 12) (perp u)"
  shows "lane_point s1 t \<noteq> lane_point s2 s"
proof
  assume eq: "lane_point s1 t = lane_point s2 s"
  define ux where "ux = px u"
  define uy where "uy = py u"
  define k where "k = t * (d - rb) - d - s * (ra - d)"
  from eq have "px (lane_point s1 t) - px (lane_point s2 s) = 0"
    and "py (lane_point s1 t) - py (lane_point s2 s) = 0" by simp_all
  then have "- (24 * uy) + k * ux = 0" and "24 * ux + k * uy = 0"
    unfolding lane_point_def s1 s2 b ux_def uy_def k_def
    by (simp_all add: move_def perp_def algebra_simps)
  with n show False
    unfolding ux_def [symmetric] uy_def [symmetric] by (rule ring_24)
qed

text \<open>
  Claim C6, as amended. For two different nodes A and B at different positions, when the
  edges from A to B and from B to A are both in the collection, both are flagged
  bidirectional, both schematics are Straight forms, and their start and end points are
  moved across the direction from A to B by 12, to opposite sides; no point of the line
  through one lane is a point of the line through the other.
\<close>

theorem bidirectional_lanes_oppose:
  assumes r: "getFromToNodes e ns = Inr ((ia, a), (ib, b))" and ne: "ia \<noteq> ib"
    and i: "list_all (resolvable ns) es"
    and m1: "e \<in> set es" and m2: "reverse_edge e \<in> set es"
    and pos: "node_pos a \<noteq> node_pos b"
  shows "\<exists>s1 s2. getEdgeSchematic e ns es opts = Inr (Straight s1)
      \<and> getEdgeSchematic (reverse_edge e) ns es opts = Inr (Straight s2)
      \<and> isBidirectional es a b \<and> isBidirectional es b a
      \<and> arrow_start s1 = move (node_pos a) 12 (perp (unit_dir (node_pos a) (node_pos b)))
      \<and> arrow_end s1 =
          move (move (node_pos b) (- (getValue (opt_nodeSize opts) b + 10))
                  (unit_dir (node_pos a) (node_pos b)))
            12 (perp (unit_dir (node_pos a) (node_pos b)))
      \<and> arrow_start s2 = move (node_pos b) (- 12) (perp (unit_dir (node_pos a) (node_pos b)))
      \<and> arrow_end s2 =
          move (move (node_pos a) (getValue (opt_nodeSize opts) a + 10)
                  (unit_dir (node_pos a) (node_pos b)))
            (- 12) (perp (unit_dir (node_pos a) (node_pos b)))
      \<and> (\<forall>t s. lane_point s1 t \<noteq> lane_point s2 s)"
proof -
  let ?u = "unit_dir (node_pos a) (node_pos b)"
  let ?ra = "getValue (opt_nodeSize opts) a + 10"
  let ?rb = "getValue (opt_nodeSize opts) b + 10"
  let ?w = "atan2 (gy b - gy a) (gx b - gx a)"
  let ?w' = "atan2 (gy a - gy b) (gx a - gx b)"
  let ?s1 = "\<lparr>arrow_start = move (node_pos a) 12 (perp ?u),
              arrow_end = move (move (node_pos b) (- ?rb) ?u) 12 (perp ?u),
              arrow_color = getValue (opt_edgeColor opts) e,
              arrow_width = getValue (opt_edgeWidth opts) e\<rparr>"
  let ?s2 = "\<lparr>arrow_start = move (node_pos b) (- 12) (perp ?u),
              arrow_end = move (move (node_pos a) ?ra ?u) (- 12) (perp ?u),
              arrow_color = getValue (opt_edgeColor opts) (reverse_edge e),
              arrow_width = getValue (opt_edgeWidth opts) (reverse_edge e)\<rparr>"
  have lab: "label a = gfrom e" "label b = gto e"
    using getFromToNodes_labels [OF r] by simp_all
  have bi1: "isBidirectional es a b"
    using m2 by (auto simp: isBidirectional_def list_ex_iff lab reverse_edge_def intro!: bexI [of _ "reverse_edge e"])
  have bi2: "isBidirectional es b a"
    using m1 by (auto simp: isBidirectional_def list_ex_iff lab intro!: bexI [of _ e])
  have r': "getFromToNodes (reverse_edge e) ns = Inr ((ib, b), (ia, a))"
    by (rule getFromToNodes_reverse [OF r])
  have ne': "ib \<noteq> ia" using ne by simp
  have cs: "cos ?w = px ?u" "sin ?w = py ?u"
    using dir_cos_sin [OF pos] by (simp_all add: node_pos_def)
  have pos': "node_pos b \<noteq> node_pos a" using pos by simp
  have cs': "cos ?w' = - px ?u" "sin ?w' = - py ?u"
    using dir_cos_sin [OF pos'] unit_dir_swap [of "node_pos b" "node_pos a"]
    by (simp_all add: node_pos_def)
  have e1: "getEdgeSchematic e ns es opts = Inr (Straight ?s1)"
    using straight_form [OF r ne i, of opts] bi1
    by (simp add: quarter_turn quarter_turn_left cs move_def perp_def node_pos_def algebra_simps)
  have e2: "getEdgeSchematic (reverse_edge e) ns es opts = Inr (Straight ?s2)"
    using straight_form [OF r' ne' i, of opts] bi2
    by (simp add: quarter_turn quarter_turn_left cs' move_def perp_def node_pos_def algebra_simps)
  have n: "(px ?u)\<^sup>2 + (py ?u)\<^sup>2 = 1" by (rule unit_dir_norm [OF pos])
  have bm: "node_pos b = move (node_pos a) (pdist (node_pos a) (node_pos b)) ?u"
    by (rule move_to_target [OF pos])
  have apart: "\<forall>t s. lane_point ?s1 t \<noteq> lane_point ?s2 s"
  proof (intro allI)
    fix t s
    show "lane_point ?s1 t \<noteq> lane_point ?s2 s"
      by (rule lanes_apart [OF n bm, where rb = "?rb" and ra = "?ra"]) simp_all
  qed
  from e1 e2 bi1 bi2 apart show ?thesis
    by (intro exI [of _ ?s1] exI [of _ ?s2]) simp
qed

text \<open>The amended claim C6 at A = (0,0) and B = (100,0): the lanes lie at y = 12 and
  y = -12.\<close>

theorem bidirectional_lanes_oppose_witness:
  "getFromToNodes edge_AB [node_A, node_B] = Inr ((0, node_A), (1, node_B))
   \<and> list_all (resolvable [node_A, node_B]) [edge_AB, edge_BA]
   \<and> edge_AB \<in> set [edge_AB, edge_BA]
   \<and> reverse_edge edge_AB \<in> set [edge_AB, edge_BA]
   \<and> node_pos node_A \<noteq> node_pos node_B
   \<and> (\<exists>s1 s2.
         getEdgeSchematic edge_AB [node_A, node_B] [edge_AB, edge_BA] default_options
           = Inr (Straight s1)
       \<and> getEdgeSchematic edge_BA [node_A, node_B] [edge_AB, edge_BA] default_options
           = Inr (Straight s2)
       \<and> arrow_start s1 = \<lparr>px = 0, py = 12\<rparr> \<and> arrow_end s1 = \<lparr>px = 55, py = 12\<rparr>
       \<and> arrow_start s2 = \<lparr>px = 100, py = - 12\<rparr> \<and> arrow_end s2 = \<lparr>px = 45, py = - 12\<rparr>
       \<and> lane_point s1 (1 / 2) \<noteq> lane_point s2 (1 / 2))"
proof -
  have r: "getFromToNodes edge_AB [node_A, node_B] = Inr ((0, node_A), (1, node_B))"
    by (rule resolve_AB)
  have n: "(0::nat) \<noteq> 1" by simp
  have i: "list_all (resolvable [node_A, node_B]) [edge_AB, edge_BA]"
    by (simp add: resolvable_def edge_AB_def edge_BA_def node_A_def node_B_def)
  have rev: "reverse_edge edge_AB = edge_BA"
    by (simp add: reverse_edge_def edge_AB_def edge_BA_def)
  have m1: "edge_AB \<in> set [edge_AB, edge_BA]" by simp
  have m2: "reverse_edge edge_AB \<in> set [edge_AB, edge_BA]" by (simp add: rev)
  have p: "node_pos node_A \<noteq> node_pos node_B"
    by (simp add: node_pos_def node_A_def node_B_def)
  have d: "pdist (node_pos node_A) (node_pos node_B) = 100"
    by (simp add: pdist_def node_pos_def node_A_def node_B_def sqrt_100)
  have u: "unit_dir (node_pos node_A) (node_pos node_B) = \<lparr>px = 1, py = 0\<rparr>"
    unfolding unit_dir_def d by (simp add: node_pos_def node_A_def node_B_def)
  from bidirectional_lanes_oppose [OF r n i m1 m2 p, of default_options]
  obtain s1 s2 where
    h: "getEdgeSchematic edge_AB [node_A, node_B] [edge_AB, edge_BA] default_options
           = Inr (Straight s1)"
       "getEdgeSchematic (reverse_edge edge_AB) [node_A, node_B] [edge_AB, edge_BA] default_options
           = Inr (Straight s2)"
       "arrow_start s1 = move (node_pos node_A) 12 (perp (unit_dir (node_pos node_A) (node_pos node_B)))"
       "arrow_end s1 =
          move (move (node_pos node_B) (- (getValue (opt_nodeSize default_options) node_B + 10))
                  (unit_dir (node_pos node_A) (node_pos node_B)))
            12 (perp (unit_dir (node_pos node_A) (node_pos node_B)))"
       "arrow_start s2 = move (node_pos node_B) (- 12) (perp (unit_dir (node_pos node_A) (node_pos node_B)))"
       "arrow_end s2 =
          move (move (node_pos node_A) (getValue (opt_nodeSize default_options) node_A + 10)
                  (unit_dir (node_pos node_A) (node_pos node_B)))
            (- 12) (perp (unit_dir (node_pos node_A) (node_pos node_B)))"
       "\<forall>t s. lane_point s1 t \<noteq> lane_point s2 s"
    by blast
  have a1: "arrow_start s1 = \<lparr>px = 0, py = 12\<rparr>"
    unfolding h(3) u by (simp add: move_def perp_def node_pos_def node_A_def)
  have a2: "arrow_end s1 = \<lparr>px = 55, py = 12\<rparr>"
    unfolding h(4) u by (simp add: move_def perp_def node_pos_def node_B_def default_options_def)
  have a3: "arrow_start s2 = \<lparr>px = 100, py = - 12\<rparr>"
    unfolding h(5) u by (simp add: move_def perp_def node_pos_def node_B_def)
  have a4: "arrow_end s2 = \<lparr>px = 45, py = - 12\<rparr>"
    unfolding h(6) u by (simp add: move_def perp_def node_pos_def node_A_def default_options_def)
  from h(7) have a5: "lane_point s1 (1 / 2) \<noteq> lane_point s2 (1 / 2)" by blast
  from h(1) h(2) [unfolded rev] a1 a2 a3 a4 a5
  have "\<exists>s1 s2.
         getEdgeSchematic edge_AB [node_A, node_B] [edge_AB, edge_BA] default_options
           = Inr (Straight s1)
       \<and> getEdgeSchematic edge_BA [node_A, node_B] [edge_AB, edge_BA] default_options
           = Inr (Straight s2)
       \<and> arrow_start s1 = \<lparr>px = 0, py = 12\<rparr> \<and> arrow_end s1 = \<lparr>px = 55, py = 12\<rparr>
       \<and> arrow_start s2 = \<lparr>px = 100, py = - 12\<rparr> \<and> arrow_end s2 = \<lparr>px = 45, py = - 12\<rparr>
       \<and> lane_point s1 (1 / 2) \<noteq> lane_point s2 (1 / 2)"
    by blast
  with r i m1 m2 p show ?thesis by blast
qed

text \<open>
  Claim C6 as stated fails for two different nodes at the same position: the direction
  angle is 0 for both edges, both are moved to the same side, and the two lanes are the
  same segment from (0,12) to (-45,12).
\<close>

theorem bidirectional_lanes_coincide_counterexample:
  "getEdgeSchematic edge_AD [node_A, node_D] [edge_AD, edge_DA] default_options =
     Inr (Straight \<lparr>arrow_start = \<lparr>px = 0, py = 12\<rparr>, arrow_end = \<lparr>px = - 45, py = 12\<rparr>,
                     arrow_color = ''black'', arrow_width = 10\<rparr>)
   \<and> getEdgeSchematic edge_DA [node_A, node_D] [edge_AD, edge_DA] default_options =
     Inr (Straight \<lparr>arrow_start = \<lparr>px = 0, py = 12\<rparr>, arrow_end = \<lparr>px = - 45, py = 12\<rparr>,
                     arrow_color = ''black'', arrow_width = 10\<rparr>)
   \<and> getFromToNodes edge_AD [node_A, node_D] = Inr ((0, node_A), (1, node_D))"
  by (simp add: getEdgeSchematic_def getFromToNodes_def node_A_def node_D_def edge_AD_def
      edge_DA_def default_options_def isBidirectional_def occupied_def otherEnd_def atan2_def
      Let_def)

end
